theory Spec2Isabelle
  imports Complex_Main
begin

section \<open>Envelope detector (audio/dsp/envelope_detector.cc)\<close>

text \<open>
  The detector filters a multichannel block, squares it, smooths it, resamples every
  channel to the envelope rate and takes the clamped square root. Samples are modelled
  as real numbers: rounding and the non-finite values of IEEE arithmetic are outside the
  model. An \<open>ArrayXXf\<close> is the list of its rows, an \<open>ArrayXf\<close> a list of samples; a block
  without rows has no columns in this representation.
\<close>

subsection \<open>Arrays\<close>

type_synonym ArrayXf = "real list"
type_synonym ArrayXXf = "real list list"

definition cols :: "ArrayXXf \<Rightarrow> nat" where
  "cols m = (case m of [] \<Rightarrow> 0 | r # _ \<Rightarrow> length r)"

definition col :: "ArrayXXf \<Rightarrow> nat \<Rightarrow> ArrayXf" where
  "col m j = map (\<lambda>r. r ! j) m"

text \<open>
  \<open>resize\<close> allocates the shape; Eigen leaves the coefficients unspecified, and
  \<open>ProcessBlock\<close> assigns every row before the block is read. The model fills with zeros.
\<close>

definition resize :: "nat \<Rightarrow> nat \<Rightarrow> ArrayXXf" where
  "resize r c = replicate r (replicate c 0)"

definition abs2 :: "ArrayXXf \<Rightarrow> ArrayXXf" where
  "abs2 m = map (map (\<lambda>x. x * x)) m"

subsection \<open>The external primitives\<close>

text \<open>
  The biquad cascade (prefilter), the single biquad (smoother), the coefficient designer,
  the resampling kernel and the per-channel resampler are declared in other files. They
  are parameters of the model: each operation takes the state of the object it is called
  on and returns the new state with the result. What the properties below need of them is
  stated as a hypothesis where it is used.
\<close>

record ('pre, 'smo, 'ds, 'cc, 'bc, 'k) primitives =
  prefilter_Init :: "'pre \<Rightarrow> int \<Rightarrow> 'cc \<Rightarrow> 'pre"
  prefilter_Reset :: "'pre \<Rightarrow> 'pre"
  prefilter_ProcessBlock :: "'pre \<Rightarrow> ArrayXXf \<Rightarrow> 'pre \<times> ArrayXXf"
  LowpassBiquadFilterCoefficients :: "real \<Rightarrow> real \<Rightarrow> real \<Rightarrow> 'bc"
  smoother_Init :: "'smo \<Rightarrow> int \<Rightarrow> 'bc \<Rightarrow> 'smo"
  smoother_Reset :: "'smo \<Rightarrow> 'smo"
  smoother_ProcessBlock :: "'smo \<Rightarrow> ArrayXXf \<Rightarrow> 'smo \<times> ArrayXXf"
  DefaultResamplingKernel :: "real \<Rightarrow> real \<Rightarrow> 'k"
  downsampler_new :: "'k \<Rightarrow> int \<Rightarrow> 'ds"
  downsampler_Reset :: "'ds \<Rightarrow> 'ds"
  ProcessSamplesEigen :: "'ds \<Rightarrow> ArrayXf \<Rightarrow> 'ds \<times> ArrayXf"

subsection \<open>The detector\<close>

record ('pre, 'smo, 'ds) EnvelopeDetector =
  num_channels :: int
  sample_rate_hz :: real
  envelope_cutoff_hz :: real
  envelope_sample_rate_hz :: real
  workspace :: ArrayXXf
  prefilter :: 'pre
  envelope_smoother :: 'smo
  downsamplers :: "'ds list"
  most_recent_output :: ArrayXf

text \<open>
  \<open>CheckFailed\<close> is the abort of a glog \<open>CHECK\<close>. \<open>OutOfBounds\<close> is an index or a size
  outside the allocated shape: Eigen's assertion in a checking build, undefined behaviour
  otherwise.
\<close>

datatype abort = CheckFailed | OutOfBounds

text \<open>
  Modelled from the spec: the constructor is declared in envelope_detector.h, which is
  not among the sources; the spec has the detector constructed uninitialized, with
  \<open>channel_count = 0\<close>. The default states of the two filters are arguments.
\<close>

definition EnvelopeDetector_new :: "'pre \<Rightarrow> 'smo \<Rightarrow> ('pre, 'smo, 'ds) EnvelopeDetector" where
  "EnvelopeDetector_new pre0 smo0 =
     \<lparr>num_channels = 0, sample_rate_hz = 0, envelope_cutoff_hz = 0,
      envelope_sample_rate_hz = 0, workspace = [], prefilter = pre0,
      envelope_smoother = smo0, downsamplers = [], most_recent_output = []\<rparr>"

subsection \<open>Init\<close>

text \<open>The loop of \<open>Init\<close>: one \<open>emplace_back\<close> per channel.\<close>

fun emplace_loop :: "'ds \<Rightarrow> nat \<Rightarrow> 'ds list \<Rightarrow> 'ds list" where
  "emplace_loop x 0 v = v"
| "emplace_loop x (Suc n) v = emplace_loop x n (v @ [x])"

definition kOverdamped :: real where
  "kOverdamped = 0.5"

definition Init ::
  "('pre, 'smo, 'ds, 'cc, 'bc, 'k) primitives \<Rightarrow> int \<Rightarrow> real \<Rightarrow> real \<Rightarrow> real \<Rightarrow> 'cc \<Rightarrow>
   ('pre, 'smo, 'ds) EnvelopeDetector \<Rightarrow> abort + ('pre, 'smo, 'ds) EnvelopeDetector" where
  "Init X n sr cutoff esr coeffs d =
     (if \<not> esr \<le> sr then Inl CheckFailed
      else if \<not> cutoff < esr / 2 then Inl CheckFailed
      else if \<not> cutoff > 0 then Inl CheckFailed
      else if \<not> n > 0 then Inl CheckFailed
      else
        let d1 = d\<lparr>num_channels := n, sample_rate_hz := sr, envelope_cutoff_hz := cutoff,
                   envelope_sample_rate_hz := esr\<rparr>;
            d2 = d1\<lparr>most_recent_output := replicate (nat (num_channels d1)) 0\<rparr>;
            d3 = d2\<lparr>prefilter := prefilter_Init X (prefilter d2) n coeffs\<rparr>;
            smoother_coeffs =
              LowpassBiquadFilterCoefficients X (sample_rate_hz d3) (envelope_cutoff_hz d3) kOverdamped;
            d4 = d3\<lparr>envelope_smoother := smoother_Init X (envelope_smoother d3) n smoother_coeffs\<rparr>;
            resampling_kernel = DefaultResamplingKernel X sr esr
        in Inr (d4\<lparr>downsamplers :=
                   emplace_loop (downsampler_new X resampling_kernel 500)
                     (nat (num_channels d4)) (downsamplers d4)\<rparr>))"

subsection \<open>Reset\<close>

definition Reset ::
  "('pre, 'smo, 'ds, 'cc, 'bc, 'k) primitives \<Rightarrow> ('pre, 'smo, 'ds) EnvelopeDetector \<Rightarrow>
   ('pre, 'smo, 'ds) EnvelopeDetector" where
  "Reset X d =
     (let d1 = d\<lparr>prefilter := prefilter_Reset X (prefilter d)\<rparr>;
          d2 = d1\<lparr>envelope_smoother := smoother_Reset X (envelope_smoother d1)\<rparr>
      in d2\<lparr>downsamplers := map (downsampler_Reset X) (downsamplers d2)\<rparr>)"

subsection \<open>ProcessBlock\<close>

text \<open>
  One pass of the loop over the channels. \<open>downsamplers_[channel]\<close> and
  \<open>workspace_.row(channel)\<close> need the index in range; the assignment to
  \<open>output->row(channel)\<close> needs the resampled length to be the width of \<open>output\<close>.
\<close>

definition channel_body ::
  "('pre, 'smo, 'ds, 'cc, 'bc, 'k) primitives \<Rightarrow> nat \<Rightarrow> ('pre, 'smo, 'ds) EnvelopeDetector \<Rightarrow>
   ArrayXXf \<Rightarrow> abort + (('pre, 'smo, 'ds) EnvelopeDetector \<times> ArrayXXf)" where
  "channel_body X channel d output =
     (if length (downsamplers d) \<le> channel \<or> length (workspace d) \<le> channel then Inl OutOfBounds
      else
        let (ds', out) = ProcessSamplesEigen X (downsamplers d ! channel) (workspace d ! channel);
            d' = d\<lparr>downsamplers := (downsamplers d)[channel := ds']\<rparr>;
            output1 = (if channel = 0 then resize (nat (num_channels d')) (length out) else output)
        in if length output1 \<le> channel \<or> length out \<noteq> cols output1 then Inl OutOfBounds
           else Inr (d', output1[channel := map (\<lambda>x. sqrt (max x 0)) out]))"

function channel_loop ::
  "('pre, 'smo, 'ds, 'cc, 'bc, 'k) primitives \<Rightarrow> nat \<Rightarrow> ('pre, 'smo, 'ds) EnvelopeDetector \<Rightarrow>
   ArrayXXf \<Rightarrow> abort + (('pre, 'smo, 'ds) EnvelopeDetector \<times> ArrayXXf)" where
  "channel_loop X channel d output =
     (if int channel < num_channels d then
        (case channel_body X channel d output of
           Inl a \<Rightarrow> Inl a
         | Inr (d', output') \<Rightarrow> channel_loop X (Suc channel) d' output')
      else Inr (d, output))"
  by pat_completeness auto
termination
  by (relation "measure (\<lambda>(X, channel, d, output). nat (num_channels d) - channel)")
     (auto simp: channel_body_def Let_def split: if_splits prod.splits)

declare channel_loop.simps [simp del]

definition ProcessBlock ::
  "('pre, 'smo, 'ds, 'cc, 'bc, 'k) primitives \<Rightarrow> ('pre, 'smo, 'ds) EnvelopeDetector \<Rightarrow>
   ArrayXXf \<Rightarrow> ArrayXXf \<Rightarrow> abort + (bool \<times> ('pre, 'smo, 'ds) EnvelopeDetector \<times> ArrayXXf)" where
  "ProcessBlock X d input output =
     (if num_channels d = 0 then Inr (False, d, output)
      else
        let (pre', w1) = prefilter_ProcessBlock X (prefilter d) input;
            d1 = d\<lparr>prefilter := pre', workspace := w1\<rparr>;
            d2 = d1\<lparr>workspace := abs2 (workspace d1)\<rparr>;
            (smo', w3) = smoother_ProcessBlock X (envelope_smoother d2) (workspace d2);
            d3 = d2\<lparr>envelope_smoother := smo', workspace := w3\<rparr>
        in case channel_loop X 0 d3 output of
             Inl a \<Rightarrow> Inl a
           | Inr (d4, output') \<Rightarrow>
               Inr (True,
                    if cols output' > 0
                    then d4\<lparr>most_recent_output := col output' (cols output' - 1)\<rparr>
                    else d4,
                    output'))"

subsection \<open>Notions used to state the properties\<close>

text \<open>
  \<open>smoothed\<close> is the detector after the prefilter, the squaring and the smoother of one
  call, its workspace holding the smoothed mean-square block; \<open>resampled\<close> is what the
  resampler of a channel returns on its row of the workspace.
\<close>

definition smoothed ::
  "('pre, 'smo, 'ds, 'cc, 'bc, 'k) primitives \<Rightarrow> ('pre, 'smo, 'ds) EnvelopeDetector \<Rightarrow>
   ArrayXXf \<Rightarrow> ('pre, 'smo, 'ds) EnvelopeDetector" where
  "smoothed X d input =
     (let (pre', w1) = prefilter_ProcessBlock X (prefilter d) input;
          (smo', w3) = smoother_ProcessBlock X (envelope_smoother d) (abs2 w1)
      in d\<lparr>prefilter := pre', envelope_smoother := smo', workspace := w3\<rparr>)"

definition resampled ::
  "('pre, 'smo, 'ds, 'cc, 'bc, 'k) primitives \<Rightarrow> ('pre, 'smo, 'ds) EnvelopeDetector \<Rightarrow>
   nat \<Rightarrow> 'ds \<times> ArrayXf" where
  "resampled X d c = ProcessSamplesEigen X (downsamplers d ! c) (workspace d ! c)"

definition downsampled ::
  "('pre, 'smo, 'ds, 'cc, 'bc, 'k) primitives \<Rightarrow> ('pre, 'smo, 'ds) EnvelopeDetector \<Rightarrow>
   ArrayXXf \<Rightarrow> nat \<Rightarrow> ArrayXf" where
  "downsampled X d input c = snd (resampled X (smoothed X d input) c)"

text \<open>
  The contract of the primitives that \<open>ProcessBlock\<close> relies on without checking it: the
  filters return a row for every channel, there is a resampler for every channel, and
  the resamplers of all channels return as many samples as the resampler of channel 0.
\<close>

definition equal_length_outputs ::
  "('pre, 'smo, 'ds, 'cc, 'bc, 'k) primitives \<Rightarrow> ('pre, 'smo, 'ds) EnvelopeDetector \<Rightarrow>
   ArrayXXf \<Rightarrow> bool" where
  "equal_length_outputs X d input \<longleftrightarrow>
     nat (num_channels d) \<le> length (downsamplers d) \<and>
     nat (num_channels d) \<le> length (workspace (smoothed X d input)) \<and>
     (\<forall>c < nat (num_channels d).
        length (downsampled X d input c) = length (downsampled X d input 0))"

text \<open>The five stages of a call, in the words of the specification.\<close>

definition prefilter_stage ::
  "('pre, 'smo, 'ds, 'cc, 'bc, 'k) primitives \<Rightarrow> ('pre, 'smo, 'ds) EnvelopeDetector \<Rightarrow>
   ArrayXXf \<Rightarrow> 'pre \<times> ArrayXXf" where
  "prefilter_stage X d input = prefilter_ProcessBlock X (prefilter d) input"

definition rectify :: "ArrayXXf \<Rightarrow> ArrayXXf" where
  "rectify b = map (map (\<lambda>x. x\<^sup>2)) b"

definition smooth_stage ::
  "('pre, 'smo, 'ds, 'cc, 'bc, 'k) primitives \<Rightarrow> ('pre, 'smo, 'ds) EnvelopeDetector \<Rightarrow>
   ArrayXXf \<Rightarrow> 'smo \<times> ArrayXXf" where
  "smooth_stage X d b = smoother_ProcessBlock X (envelope_smoother d) b"

definition downsample_stage ::
  "('pre, 'smo, 'ds, 'cc, 'bc, 'k) primitives \<Rightarrow> ('pre, 'smo, 'ds) EnvelopeDetector \<Rightarrow>
   ArrayXXf \<Rightarrow> ('ds \<times> ArrayXf) list" where
  "downsample_stage X d b =
     map (\<lambda>c. ProcessSamplesEigen X (downsamplers d ! c) (b ! c)) [0..<nat (num_channels d)]"

definition derectify :: "ArrayXf \<Rightarrow> ArrayXf" where
  "derectify ys = map (\<lambda>x. sqrt (max 0 x)) ys"

definition five_stages ::
  "('pre, 'smo, 'ds, 'cc, 'bc, 'k) primitives \<Rightarrow> ('pre, 'smo, 'ds) EnvelopeDetector \<Rightarrow>
   ArrayXXf \<Rightarrow> 'pre \<times> 'smo \<times> 'ds list \<times> ArrayXXf" where
  "five_stages X d input =
     (let (pre', b1) = prefilter_stage X d input;
          b2 = rectify b1;
          (smo', b3) = smooth_stage X d b2;
          r = downsample_stage X d b3
      in (pre', smo', map fst r, map (\<lambda>(s, ys). derectify ys) r))"

text \<open>A client of one detector: a sequence of calls, stopped by the first abort.\<close>

datatype call = CallProcessBlock ArrayXXf ArrayXXf | CallReset

fun run ::
  "('pre, 'smo, 'ds, 'cc, 'bc, 'k) primitives \<Rightarrow> ('pre, 'smo, 'ds) EnvelopeDetector \<Rightarrow>
   call list \<Rightarrow> abort + ('pre, 'smo, 'ds) EnvelopeDetector" where
  "run X d [] = Inr d"
| "run X d (CallReset # cs) = run X (Reset X d) cs"
| "run X d (CallProcessBlock input output # cs) =
     (case ProcessBlock X d input output of
        Inl a \<Rightarrow> Inl a
      | Inr (ok, d', output') \<Rightarrow> run X d' cs)"

text \<open>
  What \<open>Reset\<close> of a primitive is expected to do: it clears the history, so it undoes
  processing, leaves a freshly initialized primitive as it is, and a second \<open>Reset\<close>
  changes nothing.
\<close>

definition Reset_idempotent :: "('pre, 'smo, 'ds, 'cc, 'bc, 'k) primitives \<Rightarrow> bool" where
  "Reset_idempotent X \<longleftrightarrow>
     (\<forall>s. prefilter_Reset X (prefilter_Reset X s) = prefilter_Reset X s) \<and>
     (\<forall>s. smoother_Reset X (smoother_Reset X s) = smoother_Reset X s) \<and>
     (\<forall>s. downsampler_Reset X (downsampler_Reset X s) = downsampler_Reset X s)"

definition Reset_clears_history :: "('pre, 'smo, 'ds, 'cc, 'bc, 'k) primitives \<Rightarrow> bool" where
  "Reset_clears_history X \<longleftrightarrow>
     (\<forall>s n c. prefilter_Reset X (prefilter_Init X s n c) = prefilter_Init X s n c) \<and>
     (\<forall>s b. prefilter_Reset X (fst (prefilter_ProcessBlock X s b)) = prefilter_Reset X s) \<and>
     (\<forall>s n c. smoother_Reset X (smoother_Init X s n c) = smoother_Init X s n c) \<and>
     (\<forall>s b. smoother_Reset X (fst (smoother_ProcessBlock X s b)) = smoother_Reset X s) \<and>
     (\<forall>k r. downsampler_Reset X (downsampler_new X k r) = downsampler_new X k r) \<and>
     (\<forall>s xs. downsampler_Reset X (fst (ProcessSamplesEigen X s xs)) = downsampler_Reset X s)"

subsection \<open>A small instance of the primitives\<close>

text \<open>
  Two-tap filters with one sample of history per channel (a difference as prefilter, a
  sum as smoother) and a resampler that keeps every second sample. The instance runs the
  detector on concrete blocks.
\<close>

fun fir2 :: "real \<Rightarrow> real \<Rightarrow> real \<Rightarrow> real list \<Rightarrow> real \<times> real list" where
  "fir2 b0 b1 h [] = (h, [])"
| "fir2 b0 b1 h (x # xs) = (let (h', ys) = fir2 b0 b1 x xs in (h', (b0 * x + b1 * h) # ys))"

fun fir2_block :: "real \<Rightarrow> real \<Rightarrow> real list \<Rightarrow> ArrayXXf \<Rightarrow> real list \<times> ArrayXXf" where
  "fir2_block b0 b1 (h # hs) (r # rs) =
     (let (h', y) = fir2 b0 b1 h r; (hs', ys) = fir2_block b0 b1 hs rs in (h' # hs', y # ys))"
| "fir2_block b0 b1 hs [] = (hs, [])"
| "fir2_block b0 b1 [] rs = ([], [])"

fun decimate2 :: "bool \<Rightarrow> real list \<Rightarrow> bool \<times> real list" where
  "decimate2 p [] = (p, [])"
| "decimate2 p (x # xs) =
     (if p then (let (q, ys) = decimate2 False xs in (q, x # ys)) else decimate2 True xs)"

definition two_tap :: "(real list, real list, bool, unit, unit, unit) primitives" where
  "two_tap =
     \<lparr>prefilter_Init = (\<lambda>s n c. replicate (nat n) 0),
      prefilter_Reset = map (\<lambda>h. 0),
      prefilter_ProcessBlock = fir2_block 1 (- 1),
      LowpassBiquadFilterCoefficients = (\<lambda>sr cutoff damping. ()),
      smoother_Init = (\<lambda>s n c. replicate (nat n) 0),
      smoother_Reset = map (\<lambda>h. 0),
      smoother_ProcessBlock = fir2_block 1 1,
      DefaultResamplingKernel = (\<lambda>sr esr. ()),
      downsampler_new = (\<lambda>k r. False),
      downsampler_Reset = (\<lambda>p. False),
      ProcessSamplesEigen = decimate2\<rparr>"

definition fresh :: "(real list, real list, bool) EnvelopeDetector" where
  "fresh = EnvelopeDetector_new [] []"

text \<open>
  Detectors along runs of the instance: \<open>mono0\<close> is a one-channel detector right after
  \<open>Init\<close>, \<open>mono1\<close> and \<open>mono2\<close> follow it after the blocks \<open>[[1, 3]]\<close> and \<open>[[2]]\<close>, and
  \<open>mono3\<close> is \<open>mono2\<close> after \<open>Reset\<close>; \<open>stereo0\<close> and \<open>stereo1\<close> are a two-channel
  detector after \<open>Init\<close> and after the block \<open>[[1, 3], [2, 2]]\<close>.
\<close>

definition mono0 :: "(real list, real list, bool) EnvelopeDetector" where
  "mono0 =
     \<lparr>num_channels = 1, sample_rate_hz = 16000, envelope_cutoff_hz = 100,
      envelope_sample_rate_hz = 8000, workspace = [], prefilter = [0],
      envelope_smoother = [0], downsamplers = [False], most_recent_output = [0]\<rparr>"

definition mono1 :: "(real list, real list, bool) EnvelopeDetector" where
  "mono1 =
     \<lparr>num_channels = 1, sample_rate_hz = 16000, envelope_cutoff_hz = 100,
      envelope_sample_rate_hz = 8000, workspace = [[1, 5]], prefilter = [3],
      envelope_smoother = [4], downsamplers = [False], most_recent_output = [sqrt 5]\<rparr>"

definition mono2 :: "(real list, real list, bool) EnvelopeDetector" where
  "mono2 =
     \<lparr>num_channels = 1, sample_rate_hz = 16000, envelope_cutoff_hz = 100,
      envelope_sample_rate_hz = 8000, workspace = [[5]], prefilter = [2],
      envelope_smoother = [1], downsamplers = [True], most_recent_output = [sqrt 5]\<rparr>"


definition stereo0 :: "(real list, real list, bool) EnvelopeDetector" where
  "stereo0 =
     \<lparr>num_channels = 2, sample_rate_hz = 16000, envelope_cutoff_hz = 100,
      envelope_sample_rate_hz = 8000, workspace = [], prefilter = [0, 0],
      envelope_smoother = [0, 0], downsamplers = [False, False], most_recent_output = [0, 0]\<rparr>"

definition stereo1 :: "(real list, real list, bool) EnvelopeDetector" where
  "stereo1 =
     \<lparr>num_channels = 2, sample_rate_hz = 16000, envelope_cutoff_hz = 100,
      envelope_sample_rate_hz = 8000, workspace = [[1, 5], [4, 4]], prefilter = [3, 2],
      envelope_smoother = [4, 0], downsamplers = [False, False], most_recent_output = [sqrt 5, 2]\<rparr>"

text \<open>
  \<open>skewed\<close> has its two resamplers out of step. \<open>Init\<close> and \<open>ProcessBlock\<close> do not lead the
  instance there (its resamplers start alike and see rows of one length); the detector
  shows what a call does when the channels disagree.
\<close>

definition skewed :: "(real list, real list, bool) EnvelopeDetector" where
  "skewed = stereo0\<lparr>downsamplers := [False, True]\<rparr>"

subsection \<open>Notions for the loop over the channels\<close>

definition body_base ::
  "('pre, 'smo, 'ds, 'cc, 'bc, 'k) primitives \<Rightarrow> nat \<Rightarrow> ('pre, 'smo, 'ds) EnvelopeDetector \<Rightarrow>
   ArrayXXf \<Rightarrow> ArrayXXf" where
  "body_base X k d outp =
     (if k = 0 then resize (nat (num_channels d)) (length (snd (resampled X d 0))) else outp)"

definition loop_base ::
  "('pre, 'smo, 'ds, 'cc, 'bc, 'k) primitives \<Rightarrow> nat \<Rightarrow> ('pre, 'smo, 'ds) EnvelopeDetector \<Rightarrow>
   ArrayXXf \<Rightarrow> ArrayXXf" where
  "loop_base X k d outp =
     (if k = 0 \<and> 0 < num_channels d
      then resize (nat (num_channels d)) (length (snd (resampled X d 0))) else outp)"

definition chan_ok ::
  "('pre, 'smo, 'ds, 'cc, 'bc, 'k) primitives \<Rightarrow> ('pre, 'smo, 'ds) EnvelopeDetector \<Rightarrow>
   ArrayXXf \<Rightarrow> nat \<Rightarrow> bool" where
  "chan_ok X d base c \<longleftrightarrow>
     c < length (downsamplers d) \<and> c < length (workspace d) \<and> c < length base \<and>
     length (snd (resampled X d c)) = cols base"

text \<open>
  The block and the detector that a successful call returns: \<open>envelope\<close> has one row per
  channel, the clamped square roots of what the channel's resampler returned;
  \<open>advanced\<close> is the detector with the states the primitives returned.
\<close>

definition envelope ::
  "('pre, 'smo, 'ds, 'cc, 'bc, 'k) primitives \<Rightarrow> ('pre, 'smo, 'ds) EnvelopeDetector \<Rightarrow>
   ArrayXXf \<Rightarrow> ArrayXXf" where
  "envelope X d input =
     map (\<lambda>c. map (\<lambda>x. sqrt (max x 0)) (downsampled X d input c)) [0..<nat (num_channels d)]"

definition advanced ::
  "('pre, 'smo, 'ds, 'cc, 'bc, 'k) primitives \<Rightarrow> ('pre, 'smo, 'ds) EnvelopeDetector \<Rightarrow>
   ArrayXXf \<Rightarrow> ('pre, 'smo, 'ds) EnvelopeDetector" where
  "advanced X d input =
     (smoothed X d input)\<lparr>downsamplers :=
        map (\<lambda>c. if int c < num_channels d then fst (resampled X (smoothed X d input) c)
                 else downsamplers d ! c) [0..<length (downsamplers d)]\<rparr>"

subsection \<open>The loop and the call in closed form\<close>

lemma cols_update: "k < length m \<Longrightarrow> length r = cols m \<Longrightarrow> cols (m[k := r]) = cols m"
  by (cases m; cases k) (auto simp: cols_def)

lemma cols_resize: "0 < r \<Longrightarrow> cols (resize r c) = c"
  by (cases r) (auto simp: cols_def resize_def)

lemma channel_body_eq:
  "channel_body X k d outp =
     (if chan_ok X d (body_base X k d outp) k
      then Inr (d\<lparr>downsamplers := (downsamplers d)[k := fst (resampled X d k)]\<rparr>,
                (body_base X k d outp)[k := map (\<lambda>x. sqrt (max x 0)) (snd (resampled X d k))])
      else Inl OutOfBounds)"
proof (cases "ProcessSamplesEigen X (downsamplers d ! k) (workspace d ! k)")
  case (Pair s ys)
  then show ?thesis
    by (cases "k = 0") (auto simp: channel_body_def chan_ok_def body_base_def resampled_def)
qed

lemma loop_base_body: "int k < num_channels d \<Longrightarrow> loop_base X k d outp = body_base X k d outp"
  by (auto simp: loop_base_def body_base_def)

lemma channel_loop_eq:
  "channel_loop X k d outp =
     (if \<forall>c. k \<le> c \<and> int c < num_channels d \<longrightarrow> chan_ok X d (loop_base X k d outp) c
      then Inr (d\<lparr>downsamplers :=
                   map (\<lambda>c. if k \<le> c \<and> int c < num_channels d then fst (resampled X d c)
                            else downsamplers d ! c) [0..<length (downsamplers d)]\<rparr>,
                map (\<lambda>c. if k \<le> c \<and> int c < num_channels d
                          then map (\<lambda>x. sqrt (max x 0)) (snd (resampled X d c))
                          else loop_base X k d outp ! c) [0..<length (loop_base X k d outp)])
      else Inl OutOfBounds)"
proof (induction X k d outp rule: channel_loop.induct)
  case (1 X k d outp)
  let ?n = "num_channels d"
  let ?B = "loop_base X k d outp"
  show ?case
  proof (cases "int k < ?n")
    case False
    then have nc: "\<And>c. \<not> (k \<le> c \<and> int c < ?n)" by auto
    have b: "?B = outp" using False by (auto simp: loop_base_def)
    show ?thesis
      by (subst channel_loop.simps) (simp add: False nc b map_nth)
  next
    case True
    show ?thesis
    proof (cases "chan_ok X d ?B k")
      case False
      have "channel_body X k d outp = Inl OutOfBounds"
        using False True by (simp add: channel_body_eq loop_base_body)
      moreover have "\<not> (\<forall>c. k \<le> c \<and> int c < ?n \<longrightarrow> chan_ok X d ?B c)"
        using False True by auto
      ultimately show ?thesis
        by (subst channel_loop.simps) (simp add: True)
    next
      case ok: True
      define d1 where "d1 = d\<lparr>downsamplers := (downsamplers d)[k := fst (resampled X d k)]\<rparr>"
      define o1 where "o1 = ?B[k := map (\<lambda>x. sqrt (max x 0)) (snd (resampled X d k))]"
      have body: "channel_body X k d outp = Inr (d1, o1)"
        using ok True by (simp add: channel_body_eq loop_base_body d1_def o1_def)
      have n1: "num_channels d1 = ?n" by (simp add: d1_def)
      have b1: "loop_base X (Suc k) d1 o1 = o1" by (simp add: loop_base_def)
      have co1: "cols o1 = cols ?B" "length o1 = length ?B"
        using ok by (auto simp: o1_def chan_ok_def cols_update)
      have r1: "\<And>c. c \<noteq> k \<Longrightarrow> resampled X d1 c = resampled X d c"
        by (simp add: resampled_def d1_def)
      have ok1: "\<And>c. Suc k \<le> c \<Longrightarrow> chan_ok X d1 o1 c = chan_ok X d ?B c"
        using r1 co1 by (simp add: chan_ok_def d1_def)
      have all: "(\<forall>c. Suc k \<le> c \<and> int c < ?n \<longrightarrow> chan_ok X d1 o1 c) \<longleftrightarrow>
                 (\<forall>c. k \<le> c \<and> int c < ?n \<longrightarrow> chan_ok X d ?B c)"
        using ok ok1 by (metis Suc_leI Suc_le_eq le_neq_implies_less less_imp_le_nat)
      have IH: "channel_loop X (Suc k) d1 o1 = 
         (if \<forall>c. Suc k \<le> c \<and> int c < num_channels d1 \<longrightarrow> chan_ok X d1 (loop_base X (Suc k) d1 o1) c
      then Inr (d1\<lparr>downsamplers :=
                   map (\<lambda>c. if Suc k \<le> c \<and> int c < num_channels d1 then fst (resampled X d1 c)
                            else downsamplers d1 ! c) [0..<length (downsamplers d1)]\<rparr>,
                map (\<lambda>c. if Suc k \<le> c \<and> int c < num_channels d1
                          then map (\<lambda>x. sqrt (max x 0)) (snd (resampled X d1 c))
                          else loop_base X (Suc k) d1 o1 ! c) [0..<length (loop_base X (Suc k) d1 o1)])
      else Inl OutOfBounds)"
        using "1.IH"[OF True body refl] .
      have eqk: "\<And>c. k \<le> c \<Longrightarrow> \<not> Suc k \<le> c \<Longrightarrow> c = k" by arith
      have dsl: "map (\<lambda>c. if Suc k \<le> c \<and> int c < ?n then fst (resampled X d1 c)
                            else downsamplers d1 ! c) [0..<length (downsamplers d1)]
            = map (\<lambda>c. if k \<le> c \<and> int c < ?n then fst (resampled X d c)
                            else downsamplers d ! c) [0..<length (downsamplers d)]"
        using True r1 by (auto simp: d1_def nth_list_update intro!: nth_equalityI dest: eqk)
      have ol: "map (\<lambda>c. if Suc k \<le> c \<and> int c < ?n
                          then map (\<lambda>x. sqrt (max x 0)) (snd (resampled X d1 c))
                          else o1 ! c) [0..<length o1]
             = map (\<lambda>c. if k \<le> c \<and> int c < ?n
                          then map (\<lambda>x. sqrt (max x 0)) (snd (resampled X d c))
                          else ?B ! c) [0..<length ?B]"
        using True r1 co1(2) by (auto simp: o1_def nth_list_update intro!: nth_equalityI dest: eqk)
      have rec: "d1\<lparr>downsamplers := xs\<rparr> = d\<lparr>downsamplers := xs\<rparr>" for xs
        by (simp add: d1_def)
      have step: "channel_loop X k d outp = channel_loop X (Suc k) d1 o1"
        by (subst channel_loop.simps) (simp add: True body)
      show ?thesis
        unfolding step IH n1 b1 all dsl ol rec ..
    qed
  qed
qed

lemma ProcessBlock_loop:
  "num_channels d \<noteq> 0 \<Longrightarrow>
   ProcessBlock X d input outp =
     (case channel_loop X 0 (smoothed X d input) outp of
        Inl a \<Rightarrow> Inl a
      | Inr (d4, output') \<Rightarrow>
          Inr (True,
               if cols output' > 0
               then d4\<lparr>most_recent_output := col output' (cols output' - 1)\<rparr>
               else d4,
               output'))"
  by (simp add: ProcessBlock_def smoothed_def Let_def split: prod.splits)

lemma smoothed_frame [simp]:
  "num_channels (smoothed X d input) = num_channels d"
  "downsamplers (smoothed X d input) = downsamplers d"
  "most_recent_output (smoothed X d input) = most_recent_output d"
  "sample_rate_hz (smoothed X d input) = sample_rate_hz d"
  "envelope_cutoff_hz (smoothed X d input) = envelope_cutoff_hz d"
  "envelope_sample_rate_hz (smoothed X d input) = envelope_sample_rate_hz d"
  by (simp_all add: smoothed_def Let_def split: prod.splits)

lemma smoothed_states:
  "prefilter (smoothed X d input) = fst (prefilter_ProcessBlock X (prefilter d) input)"
  "envelope_smoother (smoothed X d input) =
     fst (smoother_ProcessBlock X (envelope_smoother d)
            (abs2 (snd (prefilter_ProcessBlock X (prefilter d) input))))"
  by (simp_all add: smoothed_def Let_def split: prod.splits)

lemma loop_ok_iff:
  assumes "0 < num_channels d"
  shows "(\<forall>c. 0 \<le> c \<and> int c < num_channels (smoothed X d input) \<longrightarrow>
            chan_ok X (smoothed X d input) (loop_base X 0 (smoothed X d input) outp) c)
         \<longleftrightarrow> equal_length_outputs X d input"
proof -
  let ?s = "smoothed X d input"
  let ?n = "nat (num_channels d)"
  have base: "loop_base X 0 ?s outp = resize ?n (length (downsampled X d input 0))"
    using assms by (simp add: loop_base_def downsampled_def)
  have n: "0 < ?n" using assms by simp
  have lt: "\<And>c. int c < num_channels d \<longleftrightarrow> c < ?n" using assms by auto
  have len: "length (resize ?n m) = ?n" for m by (simp add: resize_def)
  have le: "(\<forall>c<?n. c < L) \<longleftrightarrow> ?n \<le> L" for L :: nat
    by (metis less_irrefl not_le_imp_less order.strict_trans2)
  have "(\<forall>c. 0 \<le> c \<and> int c < num_channels ?s \<longrightarrow>
            chan_ok X ?s (loop_base X 0 ?s outp) c) \<longleftrightarrow>
        (\<forall>c<?n. c < length (downsamplers d)) \<and> (\<forall>c<?n. c < length (workspace ?s)) \<and>
        (\<forall>c<?n. length (downsampled X d input c) = length (downsampled X d input 0))"
    unfolding base chan_ok_def cols_resize[OF n] len
    by (auto simp: lt downsampled_def)
  then show ?thesis
    unfolding le equal_length_outputs_def .
qed

lemma ProcessBlock_ready:
  assumes "0 < num_channels d"
  shows "ProcessBlock X d input outp =
     (if equal_length_outputs X d input
      then Inr (True,
                if 0 < cols (envelope X d input)
                then (advanced X d input)\<lparr>most_recent_output :=
                        col (envelope X d input) (cols (envelope X d input) - 1)\<rparr>
                else advanced X d input,
                envelope X d input)
      else Inl OutOfBounds)"
proof -
  let ?s = "smoothed X d input"
  let ?n = "nat (num_channels d)"
  have lt: "\<And>c. int c < num_channels d \<longleftrightarrow> c < ?n" using assms by auto
  have base: "loop_base X 0 ?s outp = resize ?n (length (downsampled X d input 0))"
    using assms by (simp add: loop_base_def downsampled_def)
  have env: "map (\<lambda>c. if 0 \<le> c \<and> int c < num_channels ?s
                 then map (\<lambda>x. sqrt (max x 0)) (snd (resampled X ?s c))
                 else loop_base X 0 ?s outp ! c) [0..<length (loop_base X 0 ?s outp)]
             = envelope X d input"
    unfolding base by (simp add: envelope_def resize_def downsampled_def lt)
  have adv: "?s\<lparr>downsamplers :=
                 map (\<lambda>c. if 0 \<le> c \<and> int c < num_channels ?s then fst (resampled X ?s c)
                          else downsamplers ?s ! c) [0..<length (downsamplers ?s)]\<rparr>
             = advanced X d input"
    by (simp add: advanced_def)
  have loop: "channel_loop X 0 ?s outp =
      (if equal_length_outputs X d input
       then Inr (advanced X d input, envelope X d input) else Inl OutOfBounds)"
    unfolding channel_loop_eq[of X 0 ?s outp] loop_ok_iff[OF assms] env adv ..
  show ?thesis
    using assms by (simp add: ProcessBlock_loop loop)
qed


lemma envelope_shape:
  "length (envelope X d input) = nat (num_channels d)"
  "c < nat (num_channels d) \<Longrightarrow>
     envelope X d input ! c = map (\<lambda>x. sqrt (max x 0)) (downsampled X d input c)"
  "0 < num_channels d \<Longrightarrow> cols (envelope X d input) = length (downsampled X d input 0)"
proof -
  show "length (envelope X d input) = nat (num_channels d)" by (simp add: envelope_def)
  show "c < nat (num_channels d) \<Longrightarrow>
     envelope X d input ! c = map (\<lambda>x. sqrt (max x 0)) (downsampled X d input c)"
    by (simp add: envelope_def)
  show "0 < num_channels d \<Longrightarrow> cols (envelope X d input) = length (downsampled X d input 0)"
    by (simp add: envelope_def cols_def upt_conv_Cons)
qed

lemma ProcessBlock_ok:
  assumes "0 < num_channels d" and "ProcessBlock X d input outp = Inr (ok, d', output')"
  shows "equal_length_outputs X d input" and "ok" and "output' = envelope X d input"
    and "d' = (if 0 < cols (envelope X d input)
               then (advanced X d input)\<lparr>most_recent_output :=
                       col (envelope X d input) (cols (envelope X d input) - 1)\<rparr>
               else advanced X d input)"
  using assms(2) unfolding ProcessBlock_ready[OF assms(1)]
  by (auto split: if_splits)

lemma envelope_row_length:
  assumes "equal_length_outputs X d input" and "c < nat (num_channels d)"
  shows "length (envelope X d input ! c) = cols (envelope X d input)"
proof -
  have pos: "0 < num_channels d" using assms(2) by simp
  have "length (downsampled X d input c) = length (downsampled X d input 0)"
    using assms unfolding equal_length_outputs_def by blast
  then show ?thesis
    by (simp add: envelope_shape(2)[OF assms(2)] envelope_shape(3)[OF pos])
qed

lemma equal_length_outputs_negative:
  "num_channels d \<le> 0 \<Longrightarrow> equal_length_outputs X d input"
  by (simp add: equal_length_outputs_def)

lemma advanced_frame [simp]:
  "num_channels (advanced X d input) = num_channels d"
  "most_recent_output (advanced X d input) = most_recent_output d"
  "sample_rate_hz (advanced X d input) = sample_rate_hz d"
  "envelope_cutoff_hz (advanced X d input) = envelope_cutoff_hz d"
  "envelope_sample_rate_hz (advanced X d input) = envelope_sample_rate_hz d"
  "length (downsamplers (advanced X d input)) = length (downsamplers d)"
  by (simp_all add: advanced_def)

lemma advanced_stages [simp]:
  "prefilter (advanced X d input) = prefilter (smoothed X d input)"
  "envelope_smoother (advanced X d input) = envelope_smoother (smoothed X d input)"
  "workspace (advanced X d input) = workspace (smoothed X d input)"
  by (simp_all add: advanced_def)

lemma advanced_downsamplers:
  "c < length (downsamplers d) \<Longrightarrow>
   downsamplers (advanced X d input) ! c =
     (if c < nat (num_channels d) then fst (resampled X (smoothed X d input) c)
      else downsamplers d ! c)"
  by (auto simp: advanced_def)

lemma take_advanced:
  assumes "nat (num_channels d) \<le> length (downsamplers d)"
  shows "take (nat (num_channels d)) (downsamplers (advanced X d input)) =
         map (\<lambda>c. fst (resampled X (smoothed X d input) c)) [0..<nat (num_channels d)]"
  using assms by (auto intro!: nth_equalityI simp: advanced_downsamplers)

lemma drop_advanced:
  "drop (nat (num_channels d)) (downsamplers (advanced X d input)) =
   drop (nat (num_channels d)) (downsamplers d)"
  by (auto intro!: nth_equalityI simp: advanced_downsamplers)

lemma five_stages_eq:
  "five_stages X d input =
     (prefilter (smoothed X d input), envelope_smoother (smoothed X d input),
      map (\<lambda>c. fst (resampled X (smoothed X d input) c)) [0..<nat (num_channels d)],
      envelope X d input)"
  by (simp add: five_stages_def prefilter_stage_def rectify_def smooth_stage_def
      downsample_stage_def derectify_def smoothed_def downsampled_def resampled_def abs2_def
      envelope_def Let_def power2_eq_square max.commute split: prod.splits)

subsection \<open>Init, Reset and sequences of calls\<close>

lemma emplace_loop_replicate: "emplace_loop x n v = v @ replicate n x"
  by (induction n arbitrary: v) (simp_all add: replicate_append_same)

lemma Init_result:
  assumes "Init X n sr cutoff esr coeffs d0 = Inr d1"
  shows "0 < n" and "num_channels d1 = n" and "sample_rate_hz d1 = sr"
    and "envelope_cutoff_hz d1 = cutoff" and "envelope_sample_rate_hz d1 = esr"
    and "most_recent_output d1 = replicate (nat n) 0"
    and "workspace d1 = workspace d0"
    and "prefilter d1 = prefilter_Init X (prefilter d0) n coeffs"
    and "envelope_smoother d1 =
           smoother_Init X (envelope_smoother d0) n
             (LowpassBiquadFilterCoefficients X sr cutoff kOverdamped)"
    and "downsamplers d1 =
           downsamplers d0 @
           replicate (nat n) (downsampler_new X (DefaultResamplingKernel X sr esr) 500)"
  using assms
  by (auto simp: Init_def Let_def emplace_loop_replicate split: if_splits)

lemma Reset_frame [simp]:
  "num_channels (Reset X d) = num_channels d"
  "sample_rate_hz (Reset X d) = sample_rate_hz d"
  "envelope_cutoff_hz (Reset X d) = envelope_cutoff_hz d"
  "envelope_sample_rate_hz (Reset X d) = envelope_sample_rate_hz d"
  "most_recent_output (Reset X d) = most_recent_output d"
  "workspace (Reset X d) = workspace d"
  "prefilter (Reset X d) = prefilter_Reset X (prefilter d)"
  "envelope_smoother (Reset X d) = smoother_Reset X (envelope_smoother d)"
  "downsamplers (Reset X d) = map (downsampler_Reset X) (downsamplers d)"
  by (simp_all add: Reset_def Let_def)

lemma ProcessBlock_frame:
  assumes "0 < num_channels d" and "ProcessBlock X d input outp = Inr (ok, d', output')"
  shows "num_channels d' = num_channels d" and "sample_rate_hz d' = sample_rate_hz d"
    and "envelope_cutoff_hz d' = envelope_cutoff_hz d"
    and "envelope_sample_rate_hz d' = envelope_sample_rate_hz d"
    and "length (downsamplers d') = length (downsamplers d)"
    and "length (most_recent_output d) = nat (num_channels d) \<Longrightarrow>
         length (most_recent_output d') = nat (num_channels d)"
    and "length output' = nat (num_channels d)"
  using ProcessBlock_ok(3,4)[OF assms]
  by (simp_all add: envelope_shape(1) col_def split: if_splits)

lemma run_frame:
  assumes "run X d cs = Inr d'" and "0 < num_channels d"
    and "length (most_recent_output d) = nat (num_channels d)"
  shows "num_channels d' = num_channels d \<and> sample_rate_hz d' = sample_rate_hz d \<and>
         envelope_cutoff_hz d' = envelope_cutoff_hz d \<and>
         envelope_sample_rate_hz d' = envelope_sample_rate_hz d \<and>
         length (downsamplers d') = length (downsamplers d) \<and>
         length (most_recent_output d') = nat (num_channels d)"
  using assms
proof (induction cs arbitrary: d)
  case Nil
  then show ?case by simp
next
  case (Cons c cs)
  show ?case
  proof (cases c)
    case CallReset
    then have "run X (Reset X d) cs = Inr d'" using Cons.prems(1) by simp
    from Cons.IH[OF this] Cons.prems(2,3) show ?thesis by simp
  next
    case (CallProcessBlock input outp)
    then obtain ok d1 output' where
      pb: "ProcessBlock X d input outp = Inr (ok, d1, output')" and r: "run X d1 cs = Inr d'"
      using Cons.prems(1) by (auto split: sum.splits)
    note f = ProcessBlock_frame[OF Cons.prems(2) pb]
    have "0 < num_channels d1" "length (most_recent_output d1) = nat (num_channels d1)"
      using f(1) f(6)[OF Cons.prems(3)] Cons.prems(2) by simp_all
    from Cons.IH[OF r this] f show ?thesis by simp
  qed
qed

lemma ProcessBlock_Reset:
  assumes "Reset_clears_history X" and "0 < num_channels d"
    and "ProcessBlock X d input outp = Inr (ok, d', output')"
  shows "prefilter_Reset X (prefilter d') = prefilter_Reset X (prefilter d)"
    and "smoother_Reset X (envelope_smoother d') = smoother_Reset X (envelope_smoother d)"
    and "map (downsampler_Reset X) (downsamplers d') = map (downsampler_Reset X) (downsamplers d)"
proof -
  note r = ProcessBlock_ok[OF assms(2,3)]
  have ds: "downsamplers d' = downsamplers (advanced X d input)"
    and pre: "prefilter d' = prefilter (smoothed X d input)"
    and smo: "envelope_smoother d' = envelope_smoother (smoothed X d input)"
    using r(4) by (simp_all split: if_splits)
  show "prefilter_Reset X (prefilter d') = prefilter_Reset X (prefilter d)"
    using assms(1) by (simp add: pre smoothed_states Reset_clears_history_def)
  show "smoother_Reset X (envelope_smoother d') = smoother_Reset X (envelope_smoother d)"
    using assms(1) by (simp add: smo smoothed_states Reset_clears_history_def)
  have one: "downsampler_Reset X (downsamplers (advanced X d input) ! c) =
             downsampler_Reset X (downsamplers d ! c)" if "c < length (downsamplers d)" for c
    using assms(1) that
    by (simp add: advanced_downsamplers resampled_def Reset_clears_history_def)
  show "map (downsampler_Reset X) (downsamplers d') = map (downsampler_Reset X) (downsamplers d)"
    unfolding ds by (rule nth_equalityI) (simp_all add: one)
qed

lemma run_Reset:
  assumes "Reset_clears_history X" and "Reset_idempotent X"
    and "run X d cs = Inr d'" and "0 < num_channels d"
  shows "prefilter_Reset X (prefilter d') = prefilter_Reset X (prefilter d) \<and>
         smoother_Reset X (envelope_smoother d') = smoother_Reset X (envelope_smoother d) \<and>
         map (downsampler_Reset X) (downsamplers d') = map (downsampler_Reset X) (downsamplers d)"
  using assms(3,4)
proof (induction cs arbitrary: d)
  case Nil
  then show ?case by simp
next
  case (Cons c cs)
  show ?case
  proof (cases c)
    case CallReset
    then have "run X (Reset X d) cs = Inr d'" using Cons.prems(1) by simp
    from Cons.IH[OF this] Cons.prems(2) assms(2) show ?thesis
      by (simp add: Reset_idempotent_def)
  next
    case (CallProcessBlock input outp)
    then obtain ok d1 output' where
      pb: "ProcessBlock X d input outp = Inr (ok, d1, output')" and r: "run X d1 cs = Inr d'"
      using Cons.prems(1) by (auto split: sum.splits)
    have "0 < num_channels d1"
      using ProcessBlock_frame(1)[OF Cons.prems(2) pb] Cons.prems(2) by simp
    from Cons.IH[OF r this] ProcessBlock_Reset[OF assms(1) Cons.prems(2) pb]
    show ?thesis by simp
  qed
qed

subsection \<open>Runs of the instance\<close>

lemmas run_two_tap =
  ProcessBlock_def two_tap_def Let_def abs2_def channel_loop.simps channel_body_def
  resize_def cols_def col_def

lemma Init_mono0: "Init two_tap 1 16000 100 8000 () fresh = Inr mono0"
  by (simp add: Init_def two_tap_def fresh_def EnvelopeDetector_new_def mono0_def Let_def
      emplace_loop_replicate)

lemma ProcessBlock_mono0: "ProcessBlock two_tap mono0 [[1, 3]] [] = Inr (True, mono1, [[sqrt 5]])"
  by (simp add: run_two_tap mono0_def mono1_def)

lemma ProcessBlock_mono1: "ProcessBlock two_tap mono1 [[2]] [] = Inr (True, mono2, [[]])"
  by (simp add: run_two_tap mono1_def mono2_def)




lemma Init_stereo0: "Init two_tap 2 16000 100 8000 () fresh = Inr stereo0"
  by (simp add: Init_def two_tap_def fresh_def EnvelopeDetector_new_def stereo0_def Let_def
      emplace_loop_replicate numeral_2_eq_2)

lemma ProcessBlock_stereo0:
  "ProcessBlock two_tap stereo0 [[1, 3], [2, 2]] [] = Inr (True, stereo1, [[sqrt 5], [2]])"
  by (simp add: run_two_tap stereo0_def stereo1_def numeral_2_eq_2)

lemma ProcessBlock_skewed: "ProcessBlock two_tap skewed [[1], [1]] [] = Inl OutOfBounds"
  by (simp add: run_two_tap skewed_def stereo0_def numeral_2_eq_2)

lemma downsampled_stereo0:
  "downsampled two_tap stereo0 [[1, 3], [2, 2]] 0 = [5]"
  "downsampled two_tap stereo0 [[1, 3], [2, 2]] (Suc 0) = [4]"
  by (simp_all add: smoothed_def downsampled_def resampled_def two_tap_def stereo0_def abs2_def
      Let_def)




lemma equal_length_outputs_stereo0: "equal_length_outputs two_tap stereo0 [[1, 3], [2, 2]]"
proof -
  have w: "workspace (smoothed two_tap stereo0 [[1, 3], [2, 2]]) = [[1, 5], [4, 4]]"
    by (simp add: smoothed_def two_tap_def stereo0_def abs2_def Let_def)
  have n: "nat (num_channels stereo0) = Suc (Suc 0)" "downsamplers stereo0 = [False, False]"
    by (simp_all add: stereo0_def)
  show ?thesis
    unfolding equal_length_outputs_def w n by (simp add: less_Suc_eq downsampled_stereo0)
qed

lemma two_tap_Reset_idempotent: "Reset_idempotent two_tap"
  by (simp add: Reset_idempotent_def two_tap_def)

lemma two_tap_Reset_clears_history: "Reset_clears_history two_tap"
proof -
  have len: "length (fst (fir2_block b0 b1 s b)) = length s" for b0 b1 s b
  proof (induction s arbitrary: b)
    case Nil
    then show ?case by (cases b) simp_all
  next
    case (Cons h hs)
    then show ?case by (cases b) (simp_all add: case_prod_beta)
  qed
  have z: "map (\<lambda>h. 0::real) (fst (fir2_block b0 b1 s b)) = map (\<lambda>h. 0) s" for b0 b1 s b
    by (rule nth_equalityI) (simp_all add: len)
  show ?thesis
    by (simp add: Reset_clears_history_def two_tap_def z)
qed

section \<open>Properties\<close>

subsection \<open>Init\<close>



subsection \<open>ProcessBlock\<close>



text \<open>
  Claim C5. A returning call on an initialized detector computes what the five stages
  compute, in their order: prefilter, squaring, smoother, one resampler per channel,
  clamped square root; the states of the primitives are those the stages return. Under
  the contract \<open>equal_length_outputs\<close> the call returns.
\<close>

theorem ProcessBlock_five_stages:
  assumes "0 < num_channels d"
  shows "(\<forall>ok d' output'. ProcessBlock X d input outp = Inr (ok, d', output') \<longrightarrow>
            (prefilter d', envelope_smoother d',
             take (nat (num_channels d)) (downsamplers d'), output') = five_stages X d input \<and>
            drop (nat (num_channels d)) (downsamplers d') =
              drop (nat (num_channels d)) (downsamplers d)) \<and>
         (equal_length_outputs X d input \<longrightarrow>
            (\<exists>d' output'. ProcessBlock X d input outp = Inr (True, d', output')))"
proof (intro conjI allI impI)
  fix ok d' output'
  assume pb: "ProcessBlock X d input outp = Inr (ok, d', output')"
  note r = ProcessBlock_ok[OF assms pb]
  have le: "nat (num_channels d) \<le> length (downsamplers d)"
    using r(1) by (simp add: equal_length_outputs_def)
  have ds: "downsamplers d' = downsamplers (advanced X d input)"
    and pre: "prefilter d' = prefilter (smoothed X d input)"
    and smo: "envelope_smoother d' = envelope_smoother (smoothed X d input)"
    using r(4) by (simp_all split: if_splits)
  show "(prefilter d', envelope_smoother d',
         take (nat (num_channels d)) (downsamplers d'), output') = five_stages X d input"
    unfolding five_stages_eq ds pre smo r(3) take_advanced[OF le] ..
  show "drop (nat (num_channels d)) (downsamplers d') =
        drop (nat (num_channels d)) (downsamplers d)"
    unfolding ds by (rule drop_advanced)
next
  assume "equal_length_outputs X d input"
  then show "\<exists>d' output'. ProcessBlock X d input outp = Inr (True, d', output')"
    by (simp add: ProcessBlock_ready[OF assms])
qed

theorem ProcessBlock_five_stages_witness:
  "0 < num_channels stereo0 \<and> equal_length_outputs two_tap stereo0 [[1, 3], [2, 2]] \<and>
   ProcessBlock two_tap stereo0 [[1, 3], [2, 2]] [] = Inr (True, stereo1, [[sqrt 5], [2]]) \<and>
   five_stages two_tap stereo0 [[1, 3], [2, 2]] = ([3, 2], [4, 0], [False, False], [[sqrt 5], [2]])"
proof -
  have a: "0 < num_channels stereo0" by (simp add: stereo0_def)
  have n: "nat (num_channels stereo0) = Suc (Suc 0)" by (simp add: stereo0_def)
  have "(prefilter stereo1, envelope_smoother stereo1,
         take (nat (num_channels stereo0)) (downsamplers stereo1), [[sqrt 5], [2]]) =
        five_stages two_tap stereo0 [[1, 3], [2, 2]]"
    using ProcessBlock_five_stages [OF a, of two_tap "[[1, 3], [2, 2]]" "[]"]
      ProcessBlock_stereo0 by blast
  then have "five_stages two_tap stereo0 [[1, 3], [2, 2]] =
             ([3, 2], [4, 0], [False, False], [[sqrt 5], [2]])"
    by (simp add: n stereo1_def)
  then show ?thesis
    using a equal_length_outputs_stereo0 ProcessBlock_stereo0 by simp
qed





text \<open>
  Claim C1. A call on an initialized detector that returns a block with at least one
  column leaves in \<open>most_recent_output\<close> the last column of that block, one value per
  channel, the last sample of the channel's row; a call that returns a block with no
  column leaves \<open>most_recent_output\<close> as it was.
\<close>

theorem ProcessBlock_most_recent_output:
  assumes "0 < num_channels d" and "ProcessBlock X d input outp = Inr (ok, d', output')"
  shows "(0 < cols output' \<longrightarrow>
            most_recent_output d' = col output' (cols output' - 1) \<and>
            length (most_recent_output d') = nat (num_channels d) \<and>
            (\<forall>c < nat (num_channels d). most_recent_output d' ! c = last (output' ! c))) \<and>
         (cols output' = 0 \<longrightarrow> most_recent_output d' = most_recent_output d)"
proof -
  note r = ProcessBlock_ok[OF assms]
  let ?e = "envelope X d input"
  have zero: "cols ?e = 0 \<Longrightarrow> most_recent_output d' = most_recent_output d"
    using r(4) by simp
  have some: "most_recent_output d' = col ?e (cols ?e - 1)" if "0 < cols ?e"
    using r(4) that by simp
  have len: "length (col ?e (cols ?e - 1)) = nat (num_channels d)"
    by (simp add: col_def envelope_shape)
  have lastc: "col ?e (cols ?e - 1) ! c = last (?e ! c)"
    if "0 < cols ?e" and "c < nat (num_channels d)" for c
  proof -
    have l: "length (?e ! c) = cols ?e"
      using envelope_row_length[OF r(1) that(2)] .
    then have "?e ! c \<noteq> []" using that(1) by auto
    then show ?thesis
      using that(2) l by (simp add: col_def envelope_shape(1) last_conv_nth)
  qed
  show ?thesis
    unfolding r(3) using zero some len lastc by auto
qed

theorem ProcessBlock_most_recent_output_witness:
  "0 < num_channels stereo0 \<and>
   ProcessBlock two_tap stereo0 [[1, 3], [2, 2]] [] = Inr (True, stereo1, [[sqrt 5], [2]]) \<and>
   0 < cols [[sqrt 5], [2]] \<and> most_recent_output stereo1 = [sqrt 5, 2] \<and>
   0 < num_channels mono1 \<and>
   ProcessBlock two_tap mono1 [[2]] [] = Inr (True, mono2, [[]]) \<and>
   cols [[]] = 0 \<and> most_recent_output mono2 = most_recent_output mono1"
proof -
  have a: "0 < num_channels stereo0" by (simp add: stereo0_def)
  have b: "0 < num_channels mono1" by (simp add: mono1_def)
  show ?thesis
    using ProcessBlock_most_recent_output [OF a ProcessBlock_stereo0]
      ProcessBlock_most_recent_output [OF b ProcessBlock_mono1]
      a b ProcessBlock_stereo0 ProcessBlock_mono1
    by (simp add: cols_def col_def)
qed

subsection \<open>Reset\<close>

text \<open>
  Claim C9. \<open>Reset\<close> changes the prefilter, the smoother and the resamplers and nothing
  else: \<open>most_recent_output\<close> after \<open>Reset\<close> is what it was before, so a level that is
  not all zeros is still not all zeros.
\<close>

theorem Reset_keeps_most_recent_output:
  "Reset X d =
     d\<lparr>prefilter := prefilter_Reset X (prefilter d),
       envelope_smoother := smoother_Reset X (envelope_smoother d),
       downsamplers := map (downsampler_Reset X) (downsamplers d)\<rparr> \<and>
   most_recent_output (Reset X d) = most_recent_output d \<and>
   (most_recent_output d \<noteq> replicate (nat (num_channels d)) 0 \<longrightarrow>
    most_recent_output (Reset X d) \<noteq> replicate (nat (num_channels (Reset X d))) 0)"
  by (simp add: Reset_def Let_def)

theorem Reset_keeps_most_recent_output_witness:
  "most_recent_output mono1 \<noteq> replicate (nat (num_channels mono1)) 0 \<and>
   most_recent_output (Reset two_tap mono1) = [sqrt 5] \<and>
   most_recent_output (Reset two_tap mono1) \<noteq> replicate (nat (num_channels (Reset two_tap mono1))) 0"
  using Reset_keeps_most_recent_output [of two_tap mono1]
  by (simp add: mono1_def)



text \<open>
  \<open>Reset\<close> does not return the detector to the state after \<open>Init\<close>: after one block
  with an output sample, \<open>most_recent_output\<close> holds that sample, \<open>Reset\<close> keeps it, and
  it is not the zero that \<open>Init\<close> stored.
\<close>

theorem Reset_restores_Init_counterexample:
  "Init two_tap 1 16000 100 8000 () fresh = Inr mono0 \<and>
   ProcessBlock two_tap mono0 [[1, 3]] [] = Inr (True, mono1, [[sqrt 5]]) \<and>
   num_channels mono1 = 1 \<and>
   most_recent_output mono0 = [0] \<and>
   most_recent_output (Reset two_tap mono1) = [sqrt 5] \<and>
   most_recent_output (Reset two_tap mono1) \<noteq> most_recent_output mono0 \<and>
   Reset two_tap mono1 \<noteq> mono0"
proof -
  have a: "most_recent_output mono0 = [0]" by (simp add: mono0_def)
  have b: "most_recent_output (Reset two_tap mono1) = [sqrt 5]" by (simp add: mono1_def)
  have c: "most_recent_output (Reset two_tap mono1) \<noteq> most_recent_output mono0"
    unfolding a b by simp
  have "Reset two_tap mono1 \<noteq> mono0"
  proof
    assume "Reset two_tap mono1 = mono0"
    then have "most_recent_output (Reset two_tap mono1) = most_recent_output mono0"
      by (rule arg_cong)
    with c show False ..
  qed
  then show ?thesis
    using a b c Init_mono0 ProcessBlock_mono0 by (simp add: mono1_def)
qed

text \<open>
  Claim C3, amended. Take a detector initialized once (no resampler before \<open>Init\<close>) and
  primitives whose \<open>Reset\<close> clears their history. After any sequence of calls that runs
  to its end, \<open>Reset\<close> returns the prefilter, the smoother and every resampler to the
  state they had right after \<open>Init\<close> and leaves the configuration as \<open>Init\<close> stored it;
  \<open>most_recent_output\<close> and the workspace are not reset, they stay as they were before
  the \<open>Reset\<close>.
\<close>

theorem Reset_restores_primitives:
  assumes "Reset_clears_history X" and "Reset_idempotent X"
    and "downsamplers d0 = []"
    and "Init X n sr cutoff esr coeffs d0 = Inr d1" and "run X d1 cs = Inr d"
  shows "Reset X d = d1\<lparr>most_recent_output := most_recent_output d, workspace := workspace d\<rparr> \<and>
         prefilter (Reset X d) = prefilter d1 \<and>
         envelope_smoother (Reset X d) = envelope_smoother d1 \<and>
         downsamplers (Reset X d) = downsamplers d1 \<and>
         num_channels (Reset X d) = n \<and> sample_rate_hz (Reset X d) = sr \<and>
         envelope_cutoff_hz (Reset X d) = cutoff \<and> envelope_sample_rate_hz (Reset X d) = esr \<and>
         most_recent_output (Reset X d) = most_recent_output d"
proof -
  note i = Init_result[OF assms(4)]
  have p1: "0 < num_channels d1" "length (most_recent_output d1) = nat (num_channels d1)"
    using i(1,2,6) by simp_all
  note f = run_frame[OF assms(5) p1]
  note r = run_Reset[OF assms(1,2,5) p1(1)]
  have pre: "prefilter (Reset X d) = prefilter d1"
    using r assms(1) by (simp add: i(8) Reset_clears_history_def)
  have smo: "envelope_smoother (Reset X d) = envelope_smoother d1"
    using r assms(1) by (simp add: i(9) Reset_clears_history_def)
  have ds: "downsamplers (Reset X d) = downsamplers d1"
    using r assms(1,3) by (simp add: i(10) Reset_clears_history_def)
  have conf: "num_channels (Reset X d) = n \<and> sample_rate_hz (Reset X d) = sr \<and>
         envelope_cutoff_hz (Reset X d) = cutoff \<and> envelope_sample_rate_hz (Reset X d) = esr"
    using f i(2,3,4,5) by simp
  have eq: "Reset X d = d1\<lparr>most_recent_output := most_recent_output d, workspace := workspace d\<rparr>"
    using pre smo ds conf i(2,3,4,5) by (intro EnvelopeDetector.equality) simp_all
  show ?thesis
    using eq pre smo ds conf by simp
qed

theorem Reset_restores_primitives_witness:
  "Reset_clears_history two_tap \<and> Reset_idempotent two_tap \<and> downsamplers fresh = [] \<and>
   Init two_tap 1 16000 100 8000 () fresh = Inr mono0 \<and>
   run two_tap mono0 [CallProcessBlock [[1, 3]] [], CallProcessBlock [[2]] []] = Inr mono2 \<and>
   Reset two_tap mono2 = mono0\<lparr>most_recent_output := [sqrt 5], workspace := [[5]]\<rparr> \<and>
   downsamplers mono2 \<noteq> downsamplers mono0 \<and> prefilter mono2 \<noteq> prefilter mono0"
proof -
  have a: "downsamplers fresh = []" by (simp add: fresh_def EnvelopeDetector_new_def)
  have r: "run two_tap mono0 [CallProcessBlock [[1, 3]] [], CallProcessBlock [[2]] []] = Inr mono2"
    by (simp add: ProcessBlock_mono0 ProcessBlock_mono1)
  have m: "most_recent_output mono2 = [sqrt 5]" "workspace mono2 = [[5]]"
    "downsamplers mono2 \<noteq> downsamplers mono0" "prefilter mono2 \<noteq> prefilter mono0"
    by (simp_all add: mono2_def mono0_def)
  show ?thesis
    using Reset_restores_primitives
      [OF two_tap_Reset_clears_history two_tap_Reset_idempotent a Init_mono0 r]
      two_tap_Reset_clears_history two_tap_Reset_idempotent a Init_mono0 r m
    by simp
qed

subsection \<open>Sequences of calls\<close>



end
